theory Spec2Isabelle
  imports Complex_Main
begin

section \<open>Python values\<close>

text \<open>
  The values that \<^verbatim>\<open>torch_xla_py/xla_model.py\<close> walks over. A numeric buffer is opaque:
  \<open>Obj c i\<close> is the object with identity \<open>i\<close> of runtime class \<open>c\<close>. \<open>Tensor i g\<close> is a
  \<^verbatim>\<open>torch.Tensor\<close> with storage identity \<open>i\<close>; its attribute \<^verbatim>\<open>.grad\<close> is \<^verbatim>\<open>None\<close> when \<open>g\<close> is
  \<open>None\<close>, and the tensor with storage identity \<open>j\<close> when \<open>g\<close> is \<open>Some j\<close>. \<open>LinearIndex i\<close>
  is an instance of the class \<^verbatim>\<open>LinearIndex\<close>, whose only field is \<^verbatim>\<open>index\<close>. A set is kept
  as the list of its elements in iteration order, a dict as the list of its items in
  iteration order.
\<close>

datatype pyval =
    PNone
  | PInt int
  | PStr string
  | Obj nat nat
  | Tensor nat "nat option"
  | LinearIndex int
  | PList "pyval list"
  | PTuple "pyval list"
  | PSet "pyval list"
  | PDict "(pyval \<times> pyval) list"

text \<open>The runtime type \<^verbatim>\<open>type(x)\<close>.\<close>

datatype pytype =
    TNoneType | TInt | TStr | TObj nat | TTensor | TLinearIndex
  | TList | TTuple | TSet | TDict

fun type_of :: "pyval \<Rightarrow> pytype" where
  "type_of PNone = TNoneType"
| "type_of (PInt _) = TInt"
| "type_of (PStr _) = TStr"
| "type_of (Obj c _) = TObj c"
| "type_of (Tensor _ _) = TTensor"
| "type_of (LinearIndex _) = TLinearIndex"
| "type_of (PList _) = TList"
| "type_of (PTuple _) = TTuple"
| "type_of (PSet _) = TSet"
| "type_of (PDict _) = TDict"

text \<open>
  Exceptions. \<open>Raised s\<close> is an exception raised by an external collaborator (the
  conversion function, the optimizer, the graph saver), named by \<open>s\<close>.
\<close>

datatype error = AssertionError | IndexError | RecursionError | Raised string

text \<open>Python's \<^verbatim>\<open>xs[i]\<close> on a list: a negative index counts from the end.\<close>

definition py_index :: "'a list \<Rightarrow> int \<Rightarrow> error + 'a" where
  "py_index xs i =
     (if 0 \<le> i \<and> i < int (length xs) then Inr (xs ! nat i)
      else if i < 0 \<and> - int (length xs) \<le> i then Inr (xs ! nat (int (length xs) + i))
      else Inl IndexError)"

section \<open>The arena\<close>

text \<open>
  \<^verbatim>\<open>class ToXlaTensorArena\<close>: the fields \<^verbatim>\<open>convert_fn\<close>, \<^verbatim>\<open>_tensors\<close>, \<^verbatim>\<open>_devices\<close> and
  \<^verbatim>\<open>_converted_tensors\<close> (\<open>None\<close> until a conversion has stored a list). The conversion
  function is supplied by the caller; it returns the list of converted buffers or
  raises.
\<close>

record arena =
  convert_fn :: "pyval list \<Rightarrow> pyval list \<Rightarrow> error + pyval list"
  tensors :: "pyval list"
  devices :: "pyval list"
  converted_tensors :: "pyval list option"

text \<open>\<^verbatim>\<open>ToXlaTensorArena(convert_fn)\<close>.\<close>

definition new_arena :: "(pyval list \<Rightarrow> pyval list \<Rightarrow> error + pyval list) \<Rightarrow> arena" where
  "new_arena f = \<lparr>convert_fn = f, tensors = [], devices = [], converted_tensors = None\<rparr>"

text \<open>
  \<^verbatim>\<open>
  def add(self, tensor, device=None):
    if self._tensors:
      assert type(self._tensors[0]) == type(tensor)
    self._tensors.append(tensor)
    if device is not None:
      self._devices.append(device)
    return LinearIndex(len(self._tensors) - 1)
  \<close>
  A method returns its result, or the exception it raised, together with the arena
  as the call left it.
\<close>

definition arena_add :: "arena \<Rightarrow> pyval \<Rightarrow> pyval \<Rightarrow> (error + pyval) \<times> arena" where
  "arena_add a tensor device =
     (if tensors a \<noteq> [] \<and> type_of (hd (tensors a)) \<noteq> type_of tensor
      then (Inl AssertionError, a)
      else
        let a1 = a\<lparr>tensors := tensors a @ [tensor]\<rparr>;
            a2 = (if device \<noteq> PNone then a1\<lparr>devices := devices a1 @ [device]\<rparr> else a1)
        in (Inr (LinearIndex (int (length (tensors a2)) - 1)), a2))"

text \<open>
  \<^verbatim>\<open>
  def convert(self):
    if self._tensors:
      self._converted_tensors = self.convert_fn(self._tensors, self._devices)
  \<close>
\<close>

definition arena_convert :: "arena \<Rightarrow> (error + unit) \<times> arena" where
  "arena_convert a =
     (if tensors a \<noteq> []
      then (case convert_fn a (tensors a) (devices a) of
              Inl e \<Rightarrow> (Inl e, a)
            | Inr cs \<Rightarrow> (Inr (), a\<lparr>converted_tensors := Some cs\<rparr>))
      else (Inr (), a))"

text \<open>
  \<^verbatim>\<open>
  def get_converted_tensor(self, lindex):
    assert isinstance(lindex, LinearIndex)
    assert self._converted_tensors is not None
    assert lindex.index < len(self._converted_tensors)
    return self._converted_tensors[lindex.index]
  \<close>
  The method changes no field, so it returns a result only.
\<close>

definition get_converted_tensor :: "arena \<Rightarrow> pyval \<Rightarrow> error + pyval" where
  "get_converted_tensor a lindex =
     (case lindex of
        LinearIndex i \<Rightarrow>
          (case converted_tensors a of
             None \<Rightarrow> Inl AssertionError
           | Some cs \<Rightarrow>
               if i < int (length cs) then py_index cs i else Inl AssertionError)
      | _ \<Rightarrow> Inl AssertionError)"

section \<open>The structural walker and the rehydrator\<close>

text \<open>
  \<^verbatim>\<open>
  def _collect_tensors(arena, collect_type, inputs, devices=None, device=''):
    if type(inputs) == collect_type:
      return arena.add(inputs, device=device)
    if isinstance(inputs, (list, tuple)):
      tensors = []
      for i, input in enumerate(inputs):
        if devices is not None:
          assert len(devices) > i
          device = devices[i]
        tensors.append(
            _collect_tensors(arena, collect_type, input, device=device))
      return tuple(tensors)
    return inputs
  \<close>
  \<open>collect_loop\<close> is the \<^verbatim>\<open>for\<close> loop: its arguments are the remaining elements, the
  loop variable \<^verbatim>\<open>device\<close>, the index \<^verbatim>\<open>i\<close> and the list \<^verbatim>\<open>tensors\<close> built so far.
  The recursive call passes no \<^verbatim>\<open>devices\<close>, so below the outermost level it is \<open>None\<close>.
\<close>

fun collect_tensors ::
    "arena \<Rightarrow> pytype \<Rightarrow> pyval \<Rightarrow> pyval list option \<Rightarrow> pyval \<Rightarrow> (error + pyval) \<times> arena"
  and collect_loop ::
    "arena \<Rightarrow> pytype \<Rightarrow> pyval list \<Rightarrow> pyval list option \<Rightarrow> pyval \<Rightarrow> nat \<Rightarrow> pyval list
       \<Rightarrow> (error + pyval list) \<times> arena"
where
  "collect_tensors a ct (PList xs) devs dev =
     (if type_of (PList xs) = ct then arena_add a (PList xs) dev
      else (case collect_loop a ct xs devs dev 0 [] of
              (Inl e, a') \<Rightarrow> (Inl e, a')
            | (Inr ts, a') \<Rightarrow> (Inr (PTuple ts), a')))"
| "collect_tensors a ct (PTuple xs) devs dev =
     (if type_of (PTuple xs) = ct then arena_add a (PTuple xs) dev
      else (case collect_loop a ct xs devs dev 0 [] of
              (Inl e, a') \<Rightarrow> (Inl e, a')
            | (Inr ts, a') \<Rightarrow> (Inr (PTuple ts), a')))"
| "collect_tensors a ct PNone devs dev =
     (if type_of PNone = ct then arena_add a PNone dev else (Inr PNone, a))"
| "collect_tensors a ct (PInt n) devs dev =
     (if type_of (PInt n) = ct then arena_add a (PInt n) dev else (Inr (PInt n), a))"
| "collect_tensors a ct (PStr s) devs dev =
     (if type_of (PStr s) = ct then arena_add a (PStr s) dev else (Inr (PStr s), a))"
| "collect_tensors a ct (Obj c i) devs dev =
     (if type_of (Obj c i) = ct then arena_add a (Obj c i) dev else (Inr (Obj c i), a))"
| "collect_tensors a ct (Tensor i g) devs dev =
     (if type_of (Tensor i g) = ct then arena_add a (Tensor i g) dev
      else (Inr (Tensor i g), a))"
| "collect_tensors a ct (LinearIndex i) devs dev =
     (if type_of (LinearIndex i) = ct then arena_add a (LinearIndex i) dev
      else (Inr (LinearIndex i), a))"
| "collect_tensors a ct (PSet xs) devs dev =
     (if type_of (PSet xs) = ct then arena_add a (PSet xs) dev else (Inr (PSet xs), a))"
| "collect_tensors a ct (PDict kvs) devs dev =
     (if type_of (PDict kvs) = ct then arena_add a (PDict kvs) dev
      else (Inr (PDict kvs), a))"
| "collect_loop a ct [] devs dev i acc = (Inr acc, a)"
| "collect_loop a ct (x # xs) devs dev i acc =
     (case (case devs of
              None \<Rightarrow> Inr dev
            | Some ds \<Rightarrow> if length ds > i then Inr (ds ! i) else Inl AssertionError) of
        Inl e \<Rightarrow> (Inl e, a)
      | Inr dev' \<Rightarrow>
          (case collect_tensors a ct x None dev' of
             (Inl e, a') \<Rightarrow> (Inl e, a')
           | (Inr t, a') \<Rightarrow> collect_loop a' ct xs devs dev' (Suc i) (acc @ [t])))"

text \<open>
  \<^verbatim>\<open>
  def _replace_tensors(arena, tensors):
    if isinstance(tensors, LinearIndex):
      return arena.get_converted_tensor(tensors)
    if isinstance(tensors, (list, tuple)):
      new_tensors = []
      for tensor in tensors:
        new_tensors.append(_replace_tensors(arena, tensor))
      return tuple(new_tensors)
    return tensors
  \<close>
\<close>

fun replace_tensors :: "arena \<Rightarrow> pyval \<Rightarrow> error + pyval"
  and replace_loop :: "arena \<Rightarrow> pyval list \<Rightarrow> pyval list \<Rightarrow> error + pyval list"
where
  "replace_tensors a (LinearIndex i) = get_converted_tensor a (LinearIndex i)"
| "replace_tensors a (PList xs) =
     (case replace_loop a xs [] of Inl e \<Rightarrow> Inl e | Inr ts \<Rightarrow> Inr (PTuple ts))"
| "replace_tensors a (PTuple xs) =
     (case replace_loop a xs [] of Inl e \<Rightarrow> Inl e | Inr ts \<Rightarrow> Inr (PTuple ts))"
| "replace_tensors a PNone = Inr PNone"
| "replace_tensors a (PInt n) = Inr (PInt n)"
| "replace_tensors a (PStr s) = Inr (PStr s)"
| "replace_tensors a (Obj c i) = Inr (Obj c i)"
| "replace_tensors a (Tensor i g) = Inr (Tensor i g)"
| "replace_tensors a (PSet xs) = Inr (PSet xs)"
| "replace_tensors a (PDict kvs) = Inr (PDict kvs)"
| "replace_loop a [] acc = Inr acc"
| "replace_loop a (x # xs) acc =
     (case replace_tensors a x of
        Inl e \<Rightarrow> Inl e
      | Inr t \<Rightarrow> replace_loop a xs (acc @ [t]))"

text \<open>A caller that adds the buffers of a list one after the other, each with its tag
  (\<open>PNone\<close> when the call leaves \<^verbatim>\<open>device\<close> out), and keeps the handles.\<close>

fun add_all :: "arena \<Rightarrow> (pyval \<times> pyval) list \<Rightarrow> (error + pyval list) \<times> arena" where
  "add_all a [] = (Inr [], a)"
| "add_all a ((t, d) # rest) =
     (case arena_add a t d of
        (Inl e, a') \<Rightarrow> (Inl e, a')
      | (Inr h, a') \<Rightarrow>
          (case add_all a' rest of
             (Inl e, a'') \<Rightarrow> (Inl e, a'')
           | (Inr hs, a'') \<Rightarrow> (Inr (h # hs), a'')))"

text \<open>
  The arena after the buffers \<open>ts\<close> and the tags \<open>ds\<close> have been appended to its two
  lists, and the tags that \<open>n\<close> calls of \<^verbatim>\<open>add\<close> with the tag \<open>dev\<close> append: none when
  \<open>dev\<close> is \<^verbatim>\<open>None\<close>.
\<close>

definition grown :: "arena \<Rightarrow> pyval list \<Rightarrow> pyval list \<Rightarrow> arena" where
  "grown a ts ds = a\<lparr>tensors := tensors a @ ts, devices := devices a @ ds\<rparr>"

definition tags :: "pyval \<Rightarrow> nat \<Rightarrow> pyval list" where
  "tags dev n = (if dev = PNone then [] else replicate n dev)"

section \<open>Positions in a nested structure\<close>

text \<open>
  The vocabulary of the properties below. \<open>leaves ct v\<close> lists the values of runtime type
  \<open>ct\<close> in \<open>v\<close>, reached through lists and tuples, from left to right. \<open>sub v p\<close> is the
  value at position \<open>p\<close> of \<open>v\<close>, a position being the list of element indices that leads
  to it from the root. \<open>rank ct v p\<close> counts the leaves of \<open>v\<close> that lie to the left of
  position \<open>p\<close>. \<open>handle_free ct v\<close> says that no \<^verbatim>\<open>LinearIndex\<close> object stands in \<open>v\<close>
  in the place of a value that the walker passes through.
\<close>

fun leaves :: "pytype \<Rightarrow> pyval \<Rightarrow> pyval list" where
  "leaves ct (PList xs) =
     (if type_of (PList xs) = ct then [PList xs] else concat (map (leaves ct) xs))"
| "leaves ct (PTuple xs) =
     (if type_of (PTuple xs) = ct then [PTuple xs] else concat (map (leaves ct) xs))"
| "leaves ct v = (if type_of v = ct then [v] else [])"

fun sub :: "pyval \<Rightarrow> nat list \<Rightarrow> pyval option" where
  "sub v [] = Some v"
| "sub (PList xs) (i # p) = (if i < length xs then sub (xs ! i) p else None)"
| "sub (PTuple xs) (i # p) = (if i < length xs then sub (xs ! i) p else None)"
| "sub v (i # p) = None"

fun rank :: "pytype \<Rightarrow> pyval \<Rightarrow> nat list \<Rightarrow> nat" where
  "rank ct v [] = 0"
| "rank ct (PList xs) (i # p) =
     length (concat (map (leaves ct) (take i xs))) + rank ct (xs ! i) p"
| "rank ct (PTuple xs) (i # p) =
     length (concat (map (leaves ct) (take i xs))) + rank ct (xs ! i) p"
| "rank ct v (i # p) = 0"

fun handle_free :: "pytype \<Rightarrow> pyval \<Rightarrow> bool" where
  "handle_free ct (PList xs) =
     (type_of (PList xs) = ct \<or> (\<forall>x\<in>set xs. handle_free ct x))"
| "handle_free ct (PTuple xs) =
     (type_of (PTuple xs) = ct \<or> (\<forall>x\<in>set xs. handle_free ct x))"
| "handle_free ct (LinearIndex i) = (ct = TLinearIndex)"
| "handle_free ct v = True"

text \<open>
  For an outer sequence \<open>xs\<close> collected with the device list \<open>ds\<close>: \<open>slot_tags\<close> lists the
  tags that the walker is expected to register, slot by slot, one for each leaf under
  a slot whose tag is not \<^verbatim>\<open>None\<close>; \<open>slot_leaves\<close> lists, slot by slot, every leaf under
  slot \<open>i\<close> paired with \<open>ds ! i\<close>. Both stop at the last slot that \<open>ds\<close> covers.
\<close>

definition slot_tags :: "pytype \<Rightarrow> pyval list \<Rightarrow> pyval list \<Rightarrow> pyval list" where
  "slot_tags ct xs ds = concat (map (\<lambda>(x, d). tags d (length (leaves ct x))) (zip xs ds))"

definition slot_leaves :: "pytype \<Rightarrow> pyval list \<Rightarrow> pyval list \<Rightarrow> (pyval \<times> pyval) list" where
  "slot_leaves ct xs ds = concat (map (\<lambda>(x, d). map (\<lambda>l. (l, d)) (leaves ct x)) (zip xs ds))"

text \<open>The elements of a list or a tuple; no other value is a sequence.\<close>

fun is_seq :: "pyval \<Rightarrow> bool" where
  "is_seq (PList xs) = True"
| "is_seq (PTuple xs) = True"
| "is_seq v = False"

fun items :: "pyval \<Rightarrow> pyval list" where
  "items (PList xs) = xs"
| "items (PTuple xs) = xs"
| "items v = []"

text \<open>
  The structure the walker is expected to return for \<open>v\<close> when the arena already holds
  \<open>k\<close> buffers: each leaf replaced by the handle of its position in collection order.
\<close>

fun mirror :: "pytype \<Rightarrow> nat \<Rightarrow> pyval \<Rightarrow> pyval"
  and mirror_list :: "pytype \<Rightarrow> nat \<Rightarrow> pyval list \<Rightarrow> pyval list"
where
  "mirror ct k (PList xs) =
     (if type_of (PList xs) = ct then LinearIndex (int k) else PTuple (mirror_list ct k xs))"
| "mirror ct k (PTuple xs) =
     (if type_of (PTuple xs) = ct then LinearIndex (int k) else PTuple (mirror_list ct k xs))"
| "mirror ct k PNone = (if type_of PNone = ct then LinearIndex (int k) else PNone)"
| "mirror ct k (PInt n) = (if type_of (PInt n) = ct then LinearIndex (int k) else PInt n)"
| "mirror ct k (PStr s) = (if type_of (PStr s) = ct then LinearIndex (int k) else PStr s)"
| "mirror ct k (Obj c i) = (if type_of (Obj c i) = ct then LinearIndex (int k) else Obj c i)"
| "mirror ct k (Tensor i g) =
     (if type_of (Tensor i g) = ct then LinearIndex (int k) else Tensor i g)"
| "mirror ct k (LinearIndex i) =
     (if type_of (LinearIndex i) = ct then LinearIndex (int k) else LinearIndex i)"
| "mirror ct k (PSet xs) = (if type_of (PSet xs) = ct then LinearIndex (int k) else PSet xs)"
| "mirror ct k (PDict kvs) =
     (if type_of (PDict kvs) = ct then LinearIndex (int k) else PDict kvs)"
| "mirror_list ct k [] = []"
| "mirror_list ct k (x # xs) =
     mirror ct k x # mirror_list ct (k + length (leaves ct x)) xs"

text \<open>
  The structure the rehydrator is expected to return for \<open>v\<close> when the converted list is
  \<open>cs\<close> and every handle in \<open>v\<close> is within its bounds (\<open>handles_within\<close>).
\<close>

fun rehydrate :: "pyval list \<Rightarrow> pyval \<Rightarrow> pyval" where
  "rehydrate cs (LinearIndex i) = cs ! nat i"
| "rehydrate cs (PList xs) = PTuple (map (rehydrate cs) xs)"
| "rehydrate cs (PTuple xs) = PTuple (map (rehydrate cs) xs)"
| "rehydrate cs v = v"

fun handles_within :: "nat \<Rightarrow> pyval \<Rightarrow> bool" where
  "handles_within n (LinearIndex i) = (0 \<le> i \<and> i < int n)"
| "handles_within n (PList xs) = (\<forall>x\<in>set xs. handles_within n x)"
| "handles_within n (PTuple xs) = (\<forall>x\<in>set xs. handles_within n x)"
| "handles_within n v = True"

section \<open>The optimizer-state collector and the step synchronizer\<close>

text \<open>
  The attributes of a \<^verbatim>\<open>torch.Tensor\<close> that the collector reads. In \<open>Tensor i g\<close> the
  gradient \<open>g\<close> is \<open>Some j\<close> when \<^verbatim>\<open>.grad\<close> is the tensor with storage identity \<open>j\<close>, and
  \<open>None\<close> when \<^verbatim>\<open>.grad\<close> is \<^verbatim>\<open>None\<close>. \<^verbatim>\<open>.data\<close> is the tensor on the same storage, detached
  from its gradient.
\<close>

fun grad :: "pyval \<Rightarrow> pyval" where
  "grad (Tensor i (Some j)) = Tensor j None"
| "grad v = PNone"

fun data :: "pyval \<Rightarrow> pyval" where
  "data (Tensor i g) = Tensor i None"
| "data v = v"

text \<open>
  Python's truth value of an object (\<^verbatim>\<open>if pstate:\<close>): \<^verbatim>\<open>None\<close>, zero and the empty
  containers are false. An object of another class counts as true; the truth value of
  a tensor depends on its contents, which are not modelled, and the per-parameter state
  that the test is applied to is a dict.
\<close>

fun truthy :: "pyval \<Rightarrow> bool" where
  "truthy PNone = False"
| "truthy (PInt n) = (n \<noteq> 0)"
| "truthy (PStr s) = (s \<noteq> [])"
| "truthy (PList xs) = (xs \<noteq> [])"
| "truthy (PTuple xs) = (xs \<noteq> [])"
| "truthy (PSet xs) = (xs \<noteq> [])"
| "truthy (PDict kvs) = (kvs \<noteq> [])"
| "truthy v = True"

text \<open>\<^verbatim>\<open>class OptimizerState\<close>: the fields \<^verbatim>\<open>tensors\<close> and \<^verbatim>\<open>gradients\<close>.\<close>

record OptimizerState =
  state_tensors :: "pyval list"
  state_gradients :: "pyval list"

text \<open>
  What the code uses of an optimizer: the value of \<^verbatim>\<open>optimizer.__getstate__()\<close>, the
  dict \<^verbatim>\<open>optimizer.state\<close> (its items), and \<^verbatim>\<open>optimizer.step(closure=closure)\<close>, which
  returns a loss or \<^verbatim>\<open>None\<close>, or raises.
\<close>

record optimizer =
  opt_getstate :: pyval
  opt_state :: "(pyval \<times> pyval) list"
  opt_step :: "pyval \<Rightarrow> error + pyval"

text \<open>\<^verbatim>\<open>optimizer.state.get(p, None)\<close>, on the items of \<^verbatim>\<open>optimizer.state\<close>.\<close>

definition state_get :: "(pyval \<times> pyval) list \<Rightarrow> pyval \<Rightarrow> pyval" where
  "state_get ost p = (case map_of ost p of None \<Rightarrow> PNone | Some v \<Rightarrow> v)"

text \<open>
  \<^verbatim>\<open>
  def add(p, state):
    if isinstance(p, torch.Tensor):
      state.tensors.append(p.data)
      if p.grad is not None:
        state.gradients.append(p.grad.data)
      pstate = optimizer.state.get(p, None)
      if pstate:
        add(pstate, state)
    elif isinstance(p, dict):
      for k, v in p.items():
        add(k, state)
        add(v, state)
    elif isinstance(p, (list, tuple, set)):
      for x in p:
        add(x, state)
  \<close>
  The first argument is \<^verbatim>\<open>optimizer.state\<close>. The second bounds the depth of the nested
  calls of \<^verbatim>\<open>add\<close>, as the interpreter's recursion limit does: a call that would exceed
  it raises \<^verbatim>\<open>RecursionError\<close>.
\<close>

function fetch_add ::
    "(pyval \<times> pyval) list \<Rightarrow> nat \<Rightarrow> pyval \<Rightarrow> OptimizerState \<Rightarrow> error + OptimizerState"
  and fetch_add_items ::
    "(pyval \<times> pyval) list \<Rightarrow> nat \<Rightarrow> (pyval \<times> pyval) list \<Rightarrow> OptimizerState
       \<Rightarrow> error + OptimizerState"
  and fetch_add_each ::
    "(pyval \<times> pyval) list \<Rightarrow> nat \<Rightarrow> pyval list \<Rightarrow> OptimizerState \<Rightarrow> error + OptimizerState"
where
  "fetch_add ost 0 p s = Inl RecursionError"
| "fetch_add ost (Suc n) (Tensor i g) s =
     (let s1 = s\<lparr>state_tensors := state_tensors s @ [data (Tensor i g)]\<rparr>;
          s2 = (if grad (Tensor i g) \<noteq> PNone
                then s1\<lparr>state_gradients := state_gradients s1 @ [data (grad (Tensor i g))]\<rparr>
                else s1);
          pstate = state_get ost (Tensor i g)
      in if truthy pstate then fetch_add ost n pstate s2 else Inr s2)"
| "fetch_add ost (Suc n) (PDict kvs) s = fetch_add_items ost n kvs s"
| "fetch_add ost (Suc n) (PList xs) s = fetch_add_each ost n xs s"
| "fetch_add ost (Suc n) (PTuple xs) s = fetch_add_each ost n xs s"
| "fetch_add ost (Suc n) (PSet xs) s = fetch_add_each ost n xs s"
| "fetch_add ost (Suc n) PNone s = Inr s"
| "fetch_add ost (Suc n) (PInt m) s = Inr s"
| "fetch_add ost (Suc n) (PStr t) s = Inr s"
| "fetch_add ost (Suc n) (Obj c i) s = Inr s"
| "fetch_add ost (Suc n) (LinearIndex i) s = Inr s"
| "fetch_add_items ost n [] s = Inr s"
| "fetch_add_items ost n ((k, v) # kvs) s =
     (case fetch_add ost n k s of
        Inl e \<Rightarrow> Inl e
      | Inr s1 \<Rightarrow>
          (case fetch_add ost n v s1 of
             Inl e \<Rightarrow> Inl e
           | Inr s2 \<Rightarrow> fetch_add_items ost n kvs s2))"
| "fetch_add_each ost n [] s = Inr s"
| "fetch_add_each ost n (x # xs) s =
     (case fetch_add ost n x s of
        Inl e \<Rightarrow> Inl e
      | Inr s1 \<Rightarrow> fetch_add_each ost n xs s1)"
  by pat_completeness auto
termination
  by (relation "measures
        [\<lambda>x. case x of
            Inl (ost, n, p, s) \<Rightarrow> 2 * n
          | Inr (Inl (ost, n, kvs, s)) \<Rightarrow> 2 * n + 1
          | Inr (Inr (ost, n, xs, s)) \<Rightarrow> 2 * n + 1,
         \<lambda>x. case x of
            Inl (ost, n, p, s) \<Rightarrow> 0
          | Inr (Inl (ost, n, kvs, s)) \<Rightarrow> length kvs
          | Inr (Inr (ost, n, xs, s)) \<Rightarrow> length xs]") auto

text \<open>
  What the code uses of the world outside the file: the environment variable
  \<^verbatim>\<open>SAVE_GRAPH_DIR\<close>, the graph saver \<^verbatim>\<open>gs.save_tensors_graph\<close> (it returns, \<open>None\<close>, or
  raises, \<open>Some e\<close>), the functions of \<^verbatim>\<open>torch_xla._XLAC\<close>, and the depth of recursion
  that is left to \<^verbatim>\<open>_fetch_optimizer_state\<close>. The functions of \<^verbatim>\<open>torch_xla._XLAC\<close> are
  taken to return; the cross-replica sum changes the contents of the gradient buffers,
  not their identities.
\<close>

record runtime =
  environ_SAVE_GRAPH_DIR :: "string option"
  save_tensors_graph :: "string \<Rightarrow> string \<Rightarrow> pyval list \<Rightarrow> error option"
  xla_get_default_device :: pyval
  xla_replication_device_count :: int
  recursion_limit :: nat

text \<open>
  The calls that leave the file, in the order in which they are made. The scale factor
  of the collective is the quotient \<^verbatim>\<open>1.0 / count\<close>, kept as a rational number.
\<close>

datatype event =
    XlaCrossReplicaSum "pyval list" rat "pyval list"
  | OptimizerStep pyval
  | SaveTensorsGraph string string "pyval list"
  | XlaStepMarker pyval

text \<open>
  \<^verbatim>\<open>
  def _fetch_optimizer_state(optimizer):
    ...
    state = OptimizerState()
    add(optimizer.__getstate__(), state)
    return state
  \<close>
\<close>

definition fetch_optimizer_state :: "runtime \<Rightarrow> optimizer \<Rightarrow> error + OptimizerState" where
  "fetch_optimizer_state rt opt =
     fetch_add (opt_state opt) (recursion_limit rt) (opt_getstate opt)
       \<lparr>state_tensors = [], state_gradients = []\<rparr>"

text \<open>
  \<^verbatim>\<open>
  def _mark_step(state):
    save_dir = os.environ.get('SAVE_GRAPH_DIR', None)
    if save_dir:
      gs.save_tensors_graph(save_dir, 'optimizer_step',
                            state.gradients + state.tensors)
    torch_xla._XLAC._xla_step_marker(torch_xla._XLAC._xla_get_default_device())
  \<close>
  The last argument is the list of the calls made so far; the result carries the list
  as the function leaves it.
\<close>

definition mark_step ::
    "runtime \<Rightarrow> OptimizerState \<Rightarrow> event list \<Rightarrow> (error + unit) \<times> event list" where
  "mark_step rt st tr =
     (case (case environ_SAVE_GRAPH_DIR rt of
              None \<Rightarrow> (None, tr)
            | Some save_dir \<Rightarrow>
                if save_dir \<noteq> []
                then (save_tensors_graph rt save_dir ''optimizer_step''
                        (state_gradients st @ state_tensors st),
                      tr @ [SaveTensorsGraph save_dir ''optimizer_step''
                              (state_gradients st @ state_tensors st)])
                else (None, tr)) of
        (Some e, tr1) \<Rightarrow> (Inl e, tr1)
      | (None, tr1) \<Rightarrow> (Inr (), tr1 @ [XlaStepMarker (xla_get_default_device rt)]))"

text \<open>
  \<^verbatim>\<open>
  def optimizer_step(optimizer, closure=None):
    state = _fetch_optimizer_state(optimizer)
    count = torch_xla._XLAC._xla_replication_device_count()
    if count > 1:
      torch_xla._XLAC._xla_cross_replica_sum(state.gradients, 1.0 / count, [])
    loss = optimizer.step(closure=closure)
    _mark_step(state)
    return loss
  \<close>
\<close>

definition optimizer_step ::
    "runtime \<Rightarrow> optimizer \<Rightarrow> pyval \<Rightarrow> (error + pyval) \<times> event list" where
  "optimizer_step rt opt closure =
     (case fetch_optimizer_state rt opt of
        Inl e \<Rightarrow> (Inl e, [])
      | Inr st \<Rightarrow>
          let count = xla_replication_device_count rt;
              tr1 = (if count > 1
                     then [XlaCrossReplicaSum (state_gradients st) (1 / of_int count) []]
                     else []);
              tr2 = tr1 @ [OptimizerStep closure]
          in (case opt_step opt closure of
                Inl e \<Rightarrow> (Inl e, tr2)
              | Inr loss \<Rightarrow>
                  (case mark_step rt st tr2 of
                     (Inl e, tr3) \<Rightarrow> (Inl e, tr3)
                   | (Inr u, tr3) \<Rightarrow> (Inr loss, tr3))))"

section \<open>Vocabulary of the optimizer properties\<close>

text \<open>
  The export that \<^verbatim>\<open>_mark_step\<close> makes: the call of the graph saver when the dump
  directory is configured (set and not empty), and the exception that this call raises,
  if any.
\<close>

definition export_events :: "runtime \<Rightarrow> OptimizerState \<Rightarrow> event list" where
  "export_events rt st =
     (case environ_SAVE_GRAPH_DIR rt of
        None \<Rightarrow> []
      | Some d \<Rightarrow>
          if d \<noteq> []
          then [SaveTensorsGraph d ''optimizer_step'' (state_gradients st @ state_tensors st)]
          else [])"

definition export_error :: "runtime \<Rightarrow> OptimizerState \<Rightarrow> error option" where
  "export_error rt st =
     (case environ_SAVE_GRAPH_DIR rt of
        None \<Rightarrow> None
      | Some d \<Rightarrow>
          if d \<noteq> []
          then save_tensors_graph rt d ''optimizer_step'' (state_gradients st @ state_tensors st)
          else None)"

text \<open>The collective that \<^verbatim>\<open>optimizer_step\<close> invokes when there is more than one replica.\<close>

definition collective_events :: "runtime \<Rightarrow> OptimizerState \<Rightarrow> event list" where
  "collective_events rt st =
     (if 1 < xla_replication_device_count rt
      then [XlaCrossReplicaSum (state_gradients st)
              (1 / of_int (xla_replication_device_count rt)) []]
      else [])"





section \<open>Properties of the arena\<close>

lemma arena_add_ok:
  "tensors a = [] \<or> type_of (hd (tensors a)) = type_of t \<Longrightarrow>
   arena_add a t d =
     (Inr (LinearIndex (int (length (tensors a)))),
      a\<lparr>tensors := tensors a @ [t],
        devices := (if d \<noteq> PNone then devices a @ [d] else devices a)\<rparr>)"
  by (auto simp: arena_add_def Let_def)

lemma add_all_same_type:
  "\<forall>c\<in>set calls. type_of (fst c) = ty \<Longrightarrow> \<forall>x\<in>set (tensors a). type_of x = ty \<Longrightarrow>
   add_all a calls =
     (Inr (map (\<lambda>i. LinearIndex (int (length (tensors a) + i))) [0 ..< length calls]),
      a\<lparr>tensors := tensors a @ map fst calls,
        devices := devices a @ filter (\<lambda>d. d \<noteq> PNone) (map snd calls)\<rparr>)"
proof (induction calls arbitrary: a)
  case Nil
  then show ?case by simp
next
  case (Cons c calls)
  obtain t d where c: "c = (t, d)" by (cases c)
  let ?a' = "a\<lparr>tensors := tensors a @ [t],
        devices := (if d \<noteq> PNone then devices a @ [d] else devices a)\<rparr>"
  have ok: "tensors a = [] \<or> type_of (hd (tensors a)) = type_of t"
    using Cons.prems c by (cases "tensors a") auto
  have step: "arena_add a t d = (Inr (LinearIndex (int (length (tensors a)))), ?a')"
    by (rule arena_add_ok [OF ok])
  have hom: "\<forall>x\<in>set (tensors ?a'). type_of x = ty"
    using Cons.prems c by auto
  have rest: "\<forall>c\<in>set calls. type_of (fst c) = ty" using Cons.prems by simp
  show ?case
    using Cons.IH [OF rest hom] step c
    by (simp add: map_upt_Suc del: upt_Suc)
qed

text \<open>
  Claim C9. In a session that holds at least one buffer, all of runtime type \<open>c\<close>,
  \<^verbatim>\<open>add\<close> of a buffer of another type raises the assertion error and leaves the arena as
  it was, so nothing is appended and no conversion has run; \<^verbatim>\<open>add\<close> of a buffer of type
  \<open>c\<close> succeeds, appends the buffer and returns the handle whose index is the new length
  minus one, and the session still holds buffers of type \<open>c\<close> only. The handles that a
  fresh session issues for buffers of one type are \<open>0, 1, 2, \<dots>\<close> in the order of the
  calls.
\<close>

theorem add_heterogeneity_rejection:
  assumes "tensors a \<noteq> []" and "\<forall>x\<in>set (tensors a). type_of x = c"
  shows "(type_of t \<noteq> c \<longrightarrow> arena_add a t d = (Inl AssertionError, a))
       \<and> (type_of t = c \<longrightarrow>
            (\<exists>a'. arena_add a t d = (Inr (LinearIndex (int (length (tensors a')) - 1)), a')
                \<and> tensors a' = tensors a @ [t]
                \<and> (\<forall>x\<in>set (tensors a'). type_of x = c)))
       \<and> (\<forall>f calls. (\<forall>x\<in>set calls. type_of (fst x) = c) \<longrightarrow>
            fst (add_all (new_arena f) calls)
              = Inr (map (\<lambda>i. LinearIndex (int i)) [0 ..< length calls]))"
proof (intro conjI impI allI)
  assume "type_of t \<noteq> c"
  then show "arena_add a t d = (Inl AssertionError, a)"
    using assms by (cases "tensors a") (auto simp: arena_add_def)
next
  assume ty: "type_of t = c"
  have ok: "tensors a = [] \<or> type_of (hd (tensors a)) = type_of t"
    using assms ty by (cases "tensors a") auto
  show "\<exists>a'. arena_add a t d = (Inr (LinearIndex (int (length (tensors a')) - 1)), a')
                \<and> tensors a' = tensors a @ [t]
                \<and> (\<forall>x\<in>set (tensors a'). type_of x = c)"
    using arena_add_ok [OF ok, of d] assms ty by auto
next
  fix f and calls :: "(pyval \<times> pyval) list"
  assume "\<forall>x\<in>set calls. type_of (fst x) = c"
  then show "fst (add_all (new_arena f) calls)
              = Inr (map (\<lambda>i. LinearIndex (int i)) [0 ..< length calls])"
    using add_all_same_type [of calls c "new_arena f"] by (simp add: new_arena_def)
qed

theorem add_heterogeneity_rejection_witness:
  "arena_add (snd (arena_add (new_arena (\<lambda>ts ds. Inr ts)) (Obj 0 1) PNone)) (Obj 1 2) PNone
     = (Inl AssertionError, snd (arena_add (new_arena (\<lambda>ts ds. Inr ts)) (Obj 0 1) PNone))
   \<and> fst (arena_add (snd (arena_add (new_arena (\<lambda>ts ds. Inr ts)) (Obj 0 1) PNone)) (Obj 0 2) PNone)
     = Inr (LinearIndex 1)
   \<and> fst (add_all (new_arena (\<lambda>ts ds. Inr ts))
            [(Obj 0 1, PNone), (Obj 0 2, PStr ''d''), (Obj 0 3, PNone)])
     = Inr [LinearIndex 0, LinearIndex 1, LinearIndex 2]"
  using add_heterogeneity_rejection
    [of "snd (arena_add (new_arena (\<lambda>ts ds. Inr ts)) (Obj 0 1) PNone)" "TObj 0" "Obj 1 2" PNone]
    add_heterogeneity_rejection
    [of "snd (arena_add (new_arena (\<lambda>ts ds. Inr ts)) (Obj 0 1) PNone)" "TObj 0" "Obj 0 2" PNone]
  by (simp add: arena_add_def new_arena_def)




text \<open>
  Claim C7, as stated, fails: a handle carries its index and nothing of the session
  that issued it. The handle that one session's \<^verbatim>\<open>add\<close> issues is accepted by another
  session, which has collected and converted a buffer of its own, and that session
  returns its own converted buffer for it.
\<close>

theorem get_converted_counterexample:
  "fst (arena_add (new_arena (\<lambda>ts ds. Inr ts)) (Obj 0 1) (PStr '''')) = Inr (LinearIndex 0)
   \<and> get_converted_tensor
       (snd (arena_convert (snd (arena_add (new_arena (\<lambda>ts ds. Inr (map (\<lambda>t. PTuple [t]) ts)))
          (Obj 5 7) (PStr '''')))))
       (LinearIndex 0) = Inr (PTuple [Obj 5 7])"
  by (simp add: arena_add_def arena_convert_def new_arena_def get_converted_tensor_def
      py_index_def)

text \<open>
  Claim C7, amended. For a handle \<open>h\<close> that the \<^verbatim>\<open>add\<close> of any session \<open>b\<close> has issued,
  \<^verbatim>\<open>get_converted_tensor\<close> of a session \<open>a\<close> raises the assertion error when \<open>a\<close> has
  no converted list, and otherwise returns the converted buffer at the index of \<open>h\<close>
  exactly when that index is below the length of the converted list of \<open>a\<close>, and raises
  the assertion error when it is not; whether \<open>a\<close> is the session that issued \<open>h\<close> is
  not checked. A value that is not a \<^verbatim>\<open>LinearIndex\<close> raises the assertion error.
\<close>

theorem get_converted_guard:
  assumes "arena_add b t d = (Inr h, b')"
  shows "(converted_tensors a = None \<longrightarrow> get_converted_tensor a h = Inl AssertionError)
       \<and> (\<forall>cs. converted_tensors a = Some cs \<longrightarrow>
            get_converted_tensor a h =
              (if length (tensors b) < length cs then Inr (cs ! length (tensors b))
               else Inl AssertionError))
       \<and> (\<forall>v. type_of v \<noteq> TLinearIndex \<longrightarrow> get_converted_tensor a v = Inl AssertionError)"
proof -
  have h: "h = LinearIndex (int (length (tensors b)))"
    using assms by (auto simp: arena_add_def Let_def split: if_splits)
  have nl: "get_converted_tensor a v = Inl AssertionError" if "type_of v \<noteq> TLinearIndex" for v
    using that by (cases v) (simp_all add: get_converted_tensor_def)
  show ?thesis
    using nl by (auto simp: h get_converted_tensor_def py_index_def Let_def)
qed

theorem get_converted_guard_witness:
  "get_converted_tensor
       (snd (arena_convert (snd (arena_add (new_arena (\<lambda>ts ds. Inr (map (\<lambda>t. PTuple [t]) ts)))
          (Obj 5 7) (PStr '''')))))
       (LinearIndex 0) = Inr (PTuple [Obj 5 7])
   \<and> get_converted_tensor (new_arena (\<lambda>ts ds. Inr ts)) (LinearIndex 0) = Inl AssertionError"
  using get_converted_guard
    [of "new_arena (\<lambda>ts ds. Inr ts)" "Obj 0 1" "PStr ''''" "LinearIndex 0"
        "snd (arena_add (new_arena (\<lambda>ts ds. Inr ts)) (Obj 0 1) (PStr ''''))"
        "snd (arena_convert (snd (arena_add
           (new_arena (\<lambda>ts ds. Inr (map (\<lambda>t. PTuple [t]) ts))) (Obj 5 7) (PStr ''''))))"]
    get_converted_guard
    [of "new_arena (\<lambda>ts ds. Inr ts)" "Obj 0 1" "PStr ''''" "LinearIndex 0"
        "snd (arena_add (new_arena (\<lambda>ts ds. Inr ts)) (Obj 0 1) (PStr ''''))"
        "new_arena (\<lambda>ts ds. Inr ts)"]
  by (simp add: arena_add_def arena_convert_def new_arena_def)

section \<open>Properties of the walker\<close>

lemma grown_nil [simp]: "grown a [] [] = a"
  by (simp add: grown_def)

lemma grown_grown [simp]: "grown (grown a t1 d1) t2 d2 = grown a (t1 @ t2) (d1 @ d2)"
  by (simp add: grown_def)

lemma grown_sel [simp]:
  "tensors (grown a ts ds) = tensors a @ ts"
  "devices (grown a ts ds) = devices a @ ds"
  "converted_tensors (grown a ts ds) = converted_tensors a"
  "convert_fn (grown a ts ds) = convert_fn a"
  by (simp_all add: grown_def)

lemma tags_add [simp]: "tags dev m @ tags dev n = tags dev (m + n)"
  by (simp add: tags_def replicate_add)

lemma tags_0 [simp]: "tags dev 0 = []"
  by (simp add: tags_def)

lemma arena_add_leaf:
  "tensors a = [] \<or> type_of (hd (tensors a)) = type_of t \<Longrightarrow>
   arena_add a t d = (Inr (LinearIndex (int (length (tensors a)))), grown a [t] (tags d 1))"
  by (simp add: arena_add_ok grown_def tags_def)

lemma leaves_type: "l \<in> set (leaves ct v) \<Longrightarrow> type_of l = ct"
  by (induction v) (auto split: if_splits)

lemma leaves_list_type: "l \<in> set (concat (map (leaves ct) xs)) \<Longrightarrow> type_of l = ct"
  by (auto dest: leaves_type)

lemma accepts_grown:
  "tensors a = [] \<or> type_of (hd (tensors a)) = ct \<Longrightarrow> \<forall>l\<in>set ls. type_of l = ct \<Longrightarrow>
   tensors (grown a ls ds) = [] \<or> type_of (hd (tensors (grown a ls ds))) = ct"
  by (cases "tensors a"; cases ls) auto

lemma collect_loop_plain:
  assumes IH: "\<And>x a dev. x \<in> set xs \<Longrightarrow> tensors a = [] \<or> type_of (hd (tensors a)) = ct \<Longrightarrow>
      collect_tensors a ct x None dev =
        (Inr (mirror ct (length (tensors a)) x),
         grown a (leaves ct x) (tags dev (length (leaves ct x))))"
    and acc: "tensors a = [] \<or> type_of (hd (tensors a)) = ct"
  shows "collect_loop a ct xs None dev i acc =
     (Inr (acc @ mirror_list ct (length (tensors a)) xs),
      grown a (concat (map (leaves ct) xs)) (tags dev (length (concat (map (leaves ct) xs)))))"
  using IH acc
proof (induction xs arbitrary: a i acc)
  case Nil
  then show ?case by simp
next
  case (Cons x xs)
  let ?a' = "grown a (leaves ct x) (tags dev (length (leaves ct x)))"
  have hd: "collect_tensors a ct x None dev = (Inr (mirror ct (length (tensors a)) x), ?a')"
    using Cons.prems by simp
  have acc': "tensors ?a' = [] \<or> type_of (hd (tensors ?a')) = ct"
    using Cons.prems(2) by (rule accepts_grown) (auto dest: leaves_type)
  have "collect_loop ?a' ct xs None dev (Suc i) (acc @ [mirror ct (length (tensors a)) x]) =
     (Inr ((acc @ [mirror ct (length (tensors a)) x]) @ mirror_list ct (length (tensors ?a')) xs),
      grown ?a' (concat (map (leaves ct) xs)) (tags dev (length (concat (map (leaves ct) xs)))))"
    using Cons.prems(1) acc' by (intro Cons.IH) auto
  then show ?case
    using hd by simp
qed

lemma collect_tensors_plain:
  "tensors a = [] \<or> type_of (hd (tensors a)) = ct \<Longrightarrow>
   collect_tensors a ct v None dev =
     (Inr (mirror ct (length (tensors a)) v),
      grown a (leaves ct v) (tags dev (length (leaves ct v))))"
proof (induction v arbitrary: a dev)
  case (PList xs)
  show ?case
  proof (cases "type_of (PList xs) = ct")
    case True
    then show ?thesis using PList.prems by (simp add: arena_add_leaf)
  next
    case False
    then show ?thesis
      using collect_loop_plain [of xs ct a dev 0 "[]", OF PList.IH PList.prems] by simp
  qed
next
  case (PTuple xs)
  show ?case
  proof (cases "type_of (PTuple xs) = ct")
    case True
    then show ?thesis using PTuple.prems by (simp add: arena_add_leaf)
  next
    case False
    then show ?thesis
      using collect_loop_plain [of xs ct a dev 0 "[]", OF PTuple.IH PTuple.prems] by simp
  qed
qed (auto simp: arena_add_leaf)

lemma slot_tags_simps [simp]:
  "slot_tags ct [] ds = []"
  "slot_tags ct xs [] = []"
  "slot_tags ct (x # xs) (d # ds) = tags d (length (leaves ct x)) @ slot_tags ct xs ds"
  by (simp_all add: slot_tags_def)

lemma slot_leaves_simps [simp]:
  "slot_leaves ct [] ds = []"
  "slot_leaves ct xs [] = []"
  "slot_leaves ct (x # xs) (d # ds) = map (\<lambda>l. (l, d)) (leaves ct x) @ slot_leaves ct xs ds"
  by (simp_all add: slot_leaves_def)

lemma collect_loop_devices:
  assumes "tensors a = [] \<or> type_of (hd (tensors a)) = ct" and "i \<le> length ds"
  shows "collect_loop a ct xs (Some ds) dev i acc =
     ((if i + length xs \<le> length ds
       then Inr (acc @ mirror_list ct (length (tensors a)) xs) else Inl AssertionError),
      grown a (concat (map (leaves ct) (take (length ds - i) xs))) (slot_tags ct xs (drop i ds)))"
  using assms
proof (induction xs arbitrary: a i acc dev)
  case Nil
  then show ?case by simp
next
  case (Cons x xs)
  show ?case
  proof (cases "i < length ds")
    case False
    then show ?thesis using Cons.prems by simp
  next
    case True
    let ?d = "ds ! i"
    let ?a' = "grown a (leaves ct x) (tags ?d (length (leaves ct x)))"
    have hd: "collect_tensors a ct x None ?d = (Inr (mirror ct (length (tensors a)) x), ?a')"
      using Cons.prems(1) by (rule collect_tensors_plain)
    have acc': "tensors ?a' = [] \<or> type_of (hd (tensors ?a')) = ct"
      using Cons.prems(1) by (rule accepts_grown) (auto dest: leaves_type)
    have dr: "drop i ds = ?d # drop (Suc i) ds"
      using True by (simp add: Cons_nth_drop_Suc)
    have tk: "take (length ds - i) (x # xs) = x # take (length ds - Suc i) xs"
    proof -
      have "length ds - i = Suc (length ds - Suc i)" using True by simp
      then show ?thesis by simp
    qed
    have IH: "collect_loop ?a' ct xs (Some ds) ?d (Suc i) (acc @ [mirror ct (length (tensors a)) x]) =
     ((if Suc i + length xs \<le> length ds
       then Inr ((acc @ [mirror ct (length (tensors a)) x]) @ mirror_list ct (length (tensors ?a')) xs)
       else Inl AssertionError),
      grown ?a' (concat (map (leaves ct) (take (length ds - Suc i) xs)))
        (slot_tags ct xs (drop (Suc i) ds)))"
      using acc' True by (intro Cons.IH) auto
    show ?thesis
      using True hd IH by (simp add: dr tk)
  qed
qed

lemma slot_leaves_zip:
  "PNone \<notin> set ds \<Longrightarrow>
   zip (concat (map (leaves ct) (take (length ds) xs))) (slot_tags ct xs ds) = slot_leaves ct xs ds"
proof (induction xs arbitrary: ds)
  case Nil
  then show ?case by simp
next
  case (Cons x xs)
  show ?case
  proof (cases ds)
    case Nil
    then show ?thesis by simp
  next
    case (Cons d ds')
    have "zip (leaves ct x) (replicate (length (leaves ct x)) d) = map (\<lambda>l. (l, d)) (leaves ct x)"
      by (simp add: zip_replicate2)
    moreover have "d \<noteq> PNone" "PNone \<notin> set ds'" using Cons Cons.prems by auto
    ultimately show ?thesis
      using Cons Cons.IH [of ds'] by (simp add: tags_def)
  qed
qed

text \<open>
  Claim C8. Let the arena be empty or hold buffers of the collected type, and let
  \<open>outer\<close> be a list or a tuple that is not itself of the collected type. Collecting
  \<open>outer\<close> with the device list \<open>ds\<close> registers, for every slot \<open>i\<close> that \<open>ds\<close> covers, each
  leaf under slot \<open>i\<close>, at whatever depth, with the tag \<open>ds ! i\<close> (no tag where \<open>ds ! i\<close> is
  \<^verbatim>\<open>None\<close>): when no entry of \<open>ds\<close> is \<^verbatim>\<open>None\<close>, the buffers and the tags that the call
  appends, paired position by position, are the pairs of \<open>slot_leaves\<close>. When \<open>ds\<close> has
  fewer entries than \<open>outer\<close>, the call raises the assertion error, and the arena then
  holds the leaves of the covered slots only: none of the first uncovered slot.
\<close>

theorem device_tag_propagation:
  assumes "tensors a = [] \<or> type_of (hd (tensors a)) = ct"
    and "is_seq outer" and "type_of outer \<noteq> ct"
  shows "collect_tensors a ct outer (Some ds) dev =
       ((if length (items outer) \<le> length ds
         then Inr (PTuple (mirror_list ct (length (tensors a)) (items outer)))
         else Inl AssertionError),
        grown a (concat (map (leaves ct) (take (length ds) (items outer))))
          (slot_tags ct (items outer) ds))
     \<and> (PNone \<notin> set ds \<longrightarrow>
         zip (drop (length (tensors a))
                (tensors (snd (collect_tensors a ct outer (Some ds) dev))))
             (drop (length (devices a))
                (devices (snd (collect_tensors a ct outer (Some ds) dev))))
           = slot_leaves ct (items outer) ds)"
proof -
  have loop: "collect_loop a ct xs (Some ds) dev 0 [] =
     ((if length xs \<le> length ds
       then Inr (mirror_list ct (length (tensors a)) xs) else Inl AssertionError),
      grown a (concat (map (leaves ct) (take (length ds) xs))) (slot_tags ct xs ds))" for xs
    using collect_loop_devices [OF assms(1), of 0 ds xs dev "[]"] by simp
  have main: "collect_tensors a ct outer (Some ds) dev =
       ((if length (items outer) \<le> length ds
         then Inr (PTuple (mirror_list ct (length (tensors a)) (items outer)))
         else Inl AssertionError),
        grown a (concat (map (leaves ct) (take (length ds) (items outer))))
          (slot_tags ct (items outer) ds))"
    using assms(2,3) by (cases outer) (simp_all add: loop)
  show ?thesis
    by (simp add: main slot_leaves_zip)
qed

theorem device_tag_propagation_witness:
  "collect_tensors (new_arena (\<lambda>ts ds. Inr ts)) (TObj 0)
      (PList [PList [Obj 0 1, PTuple [Obj 0 2]], Obj 0 3]) (Some [PStr ''d0'', PStr ''d1'']) (PStr '''')
    = (Inr (PTuple [PTuple [LinearIndex 0, PTuple [LinearIndex 1]], LinearIndex 2]),
       \<lparr>convert_fn = (\<lambda>ts ds. Inr ts), tensors = [Obj 0 1, Obj 0 2, Obj 0 3],
        devices = [PStr ''d0'', PStr ''d0'', PStr ''d1''], converted_tensors = None\<rparr>)
   \<and> collect_tensors (new_arena (\<lambda>ts ds. Inr ts)) (TObj 0)
      (PList [PList [Obj 0 1, PTuple [Obj 0 2]], Obj 0 3]) (Some [PStr ''d0'']) (PStr '''')
    = (Inl AssertionError,
       \<lparr>convert_fn = (\<lambda>ts ds. Inr ts), tensors = [Obj 0 1, Obj 0 2],
        devices = [PStr ''d0'', PStr ''d0''], converted_tensors = None\<rparr>)"
  using device_tag_propagation
      [of "new_arena (\<lambda>ts ds. Inr ts)" "TObj 0"
          "PList [PList [Obj 0 1, PTuple [Obj 0 2]], Obj 0 3]" "[PStr ''d0'', PStr ''d1'']" "PStr ''''"]
    device_tag_propagation
      [of "new_arena (\<lambda>ts ds. Inr ts)" "TObj 0"
          "PList [PList [Obj 0 1, PTuple [Obj 0 2]], Obj 0 3]" "[PStr ''d0'']" "PStr ''''"]
  by (simp add: new_arena_def grown_def tags_def)






section \<open>Properties of the rehydrator and of positions\<close>

lemma get_converted_in_range:
  "converted_tensors a = Some cs \<Longrightarrow> 0 \<le> i \<Longrightarrow> i < int (length cs) \<Longrightarrow>
   get_converted_tensor a (LinearIndex i) = Inr (cs ! nat i)"
  by (simp add: get_converted_tensor_def py_index_def)

lemma replace_loop_plain:
  assumes "\<And>x. x \<in> set xs \<Longrightarrow> replace_tensors a x = Inr (rehydrate cs x)"
  shows "replace_loop a xs acc = Inr (acc @ map (rehydrate cs) xs)"
  using assms by (induction xs arbitrary: acc) auto

lemma replace_tensors_plain:
  assumes "cs = (case converted_tensors a of None \<Rightarrow> [] | Some l \<Rightarrow> l)"
    and "handles_within (length cs) v"
  shows "replace_tensors a v = Inr (rehydrate cs v)"
  using assms(2)
proof (induction v)
  case (LinearIndex i)
  then have "converted_tensors a = Some cs"
    using assms(1) by (cases "converted_tensors a") auto
  then show ?case using LinearIndex by (simp add: get_converted_in_range)
next
  case (PList xs)
  then show ?case using replace_loop_plain [of xs a cs "[]"] by simp
next
  case (PTuple xs)
  then show ?case using replace_loop_plain [of xs a cs "[]"] by simp
qed simp_all

lemma length_mirror_list [simp]: "length (mirror_list ct k xs) = length xs"
  by (induction xs arbitrary: k) auto

lemma nth_mirror_list:
  "i < length xs \<Longrightarrow>
   mirror_list ct k xs ! i = mirror ct (k + length (concat (map (leaves ct) (take i xs)))) (xs ! i)"
proof (induction xs arbitrary: k i)
  case Nil
  then show ?case by simp
next
  case (Cons x xs)
  then show ?case by (cases i) (auto simp: add.assoc)
qed

lemma mirror_handles_list:
  assumes "\<And>x k. x \<in> set xs \<Longrightarrow> handle_free ct x \<Longrightarrow> k + length (leaves ct x) \<le> n \<Longrightarrow>
      handles_within n (mirror ct k x)"
    and "\<forall>x\<in>set xs. handle_free ct x"
    and "k + length (concat (map (leaves ct) xs)) \<le> n"
  shows "\<forall>m\<in>set (mirror_list ct k xs). handles_within n m"
  using assms
proof (induction xs arbitrary: k)
  case Nil
  then show ?case by simp
next
  case (Cons x xs)
  have "handles_within n (mirror ct k x)"
    using Cons.prems by (intro Cons.prems(1)) auto
  moreover have "\<forall>m\<in>set (mirror_list ct (k + length (leaves ct x)) xs). handles_within n m"
    using Cons.prems by (intro Cons.IH) (auto simp: add.assoc)
  ultimately show ?case by simp
qed

lemma mirror_handles:
  "handle_free ct v \<Longrightarrow> k + length (leaves ct v) \<le> n \<Longrightarrow> handles_within n (mirror ct k v)"
proof (induction v arbitrary: k)
  case (PList xs)
  show ?case
  proof (cases "type_of (PList xs) = ct")
    case True
    then show ?thesis using PList.prems by simp
  next
    case False
    then show ?thesis
      using mirror_handles_list [of xs ct n k] PList by simp
  qed
next
  case (PTuple xs)
  show ?case
  proof (cases "type_of (PTuple xs) = ct")
    case True
    then show ?thesis using PTuple.prems by simp
  next
    case False
    then show ?thesis
      using mirror_handles_list [of xs ct n k] PTuple by simp
  qed
qed auto

lemma sub_mirror:
  assumes ct: "ct \<noteq> TList" "ct \<noteq> TTuple"
  shows "sub v p = Some x \<Longrightarrow> sub (mirror ct k v) p = Some (mirror ct (k + rank ct v p) x)"
proof (induction p arbitrary: v k)
  case Nil
  then show ?case by simp
next
  case (Cons i p)
  show ?case
  proof (cases v)
    case (PList xs)
    with Cons.prems have i: "i < length xs" and s: "sub (xs ! i) p = Some x"
      by (auto split: if_splits)
    show ?thesis
      using Cons.IH [OF s] i ct PList by (auto simp: nth_mirror_list add.assoc)
  next
    case (PTuple xs)
    with Cons.prems have i: "i < length xs" and s: "sub (xs ! i) p = Some x"
      by (auto split: if_splits)
    show ?thesis
      using Cons.IH [OF s] i ct PTuple by (auto simp: nth_mirror_list add.assoc)
  qed (use Cons.prems in auto)
qed

lemma sub_rehydrate:
  "sub v p = Some x \<Longrightarrow> sub (rehydrate cs v) p = Some (rehydrate cs x)"
proof (induction p arbitrary: v)
  case Nil
  then show ?case by simp
next
  case (Cons i p)
  then show ?case by (cases v) (auto split: if_splits)
qed

lemma sub_handle_free:
  assumes ct: "ct \<noteq> TList" "ct \<noteq> TTuple"
  shows "handle_free ct v \<Longrightarrow> sub v p = Some x \<Longrightarrow> handle_free ct x"
proof (induction p arbitrary: v)
  case Nil
  then show ?case by simp
next
  case (Cons i p)
  show ?case
  proof (cases v)
    case (PList xs)
    with Cons.prems have i: "i < length xs" and s: "sub (xs ! i) p = Some x"
      by (auto split: if_splits)
    have "handle_free ct (xs ! i)" using Cons.prems(1) PList ct i by simp
    then show ?thesis using s by (rule Cons.IH)
  next
    case (PTuple xs)
    with Cons.prems have i: "i < length xs" and s: "sub (xs ! i) p = Some x"
      by (auto split: if_splits)
    have "handle_free ct (xs ! i)" using Cons.prems(1) PTuple ct i by simp
    then show ?thesis using s by (rule Cons.IH)
  qed (use Cons.prems in auto)
qed

lemma leaves_self: "type_of x = ct \<Longrightarrow> leaves ct x = [x]"
  by (cases x) auto

lemma concat_nth_offset:
  assumes "i < length xs" and "j < length (f (xs ! i))"
  shows "length (concat (map f (take i xs))) + j < length (concat (map f xs))
       \<and> concat (map f xs) ! (length (concat (map f (take i xs))) + j) = f (xs ! i) ! j"
proof -
  have xs: "xs = take i xs @ xs ! i # drop (Suc i) xs"
    using assms(1) by (rule id_take_nth_drop)
  have "concat (map f xs) =
      concat (map f (take i xs)) @ f (xs ! i) @ concat (map f (drop (Suc i) xs))"
    by (subst xs) simp
  then show ?thesis using assms(2) by (simp add: nth_append)
qed

lemma rank_leaf:
  assumes ct: "ct \<noteq> TList" "ct \<noteq> TTuple"
  shows "sub v p = Some x \<Longrightarrow> type_of x = ct \<Longrightarrow>
     rank ct v p < length (leaves ct v) \<and> leaves ct v ! rank ct v p = x"
proof (induction p arbitrary: v)
  case Nil
  then show ?case by (simp add: leaves_self)
next
  case (Cons i p)
  show ?case
  proof (cases v)
    case (PList xs)
    with Cons.prems have i: "i < length xs" and s: "sub (xs ! i) p = Some x"
      by (auto split: if_splits)
    from Cons.IH [OF s Cons.prems(2)] have
      r: "rank ct (xs ! i) p < length (leaves ct (xs ! i))"
        "leaves ct (xs ! i) ! rank ct (xs ! i) p = x" by auto
    show ?thesis
      using concat_nth_offset [of i xs "rank ct (xs ! i) p" "leaves ct", OF i r(1)] r(2) ct PList
      by simp
  next
    case (PTuple xs)
    with Cons.prems have i: "i < length xs" and s: "sub (xs ! i) p = Some x"
      by (auto split: if_splits)
    from Cons.IH [OF s Cons.prems(2)] have
      r: "rank ct (xs ! i) p < length (leaves ct (xs ! i))"
        "leaves ct (xs ! i) ! rank ct (xs ! i) p = x" by auto
    show ?thesis
      using concat_nth_offset [of i xs "rank ct (xs ! i) p" "leaves ct", OF i r(1)] r(2) ct PTuple
      by simp
  qed (use Cons.prems in auto)
qed

lemma mirror_cases:
  "mirror ct k x =
     (if type_of x = ct then LinearIndex (int k)
      else if is_seq x then PTuple (mirror_list ct k (items x)) else x)"
  by (cases x) auto

lemma rehydrate_cases:
  "rehydrate cs x =
     (case x of LinearIndex i \<Rightarrow> cs ! nat i
      | _ \<Rightarrow> if is_seq x then PTuple (map (rehydrate cs) (items x)) else x)"
  by (cases x) auto

text \<open>
  Claim C1. Let the collected type \<open>ct\<close> be a type of buffers (neither list nor tuple),
  let \<open>S\<close> be a nested structure in which no \<^verbatim>\<open>LinearIndex\<close> object stands for a value that
  is passed through, and let the conversion function return for the collected leaves
  and their tags a list \<open>conv\<close> of the same length. On a fresh session the walker
  succeeds and collects the leaves of \<open>S\<close> from left to right, \<^verbatim>\<open>convert\<close> succeeds, and the
  rehydrator succeeds on the mirrored structure with a result \<open>R\<close> such that, for every
  position \<open>p\<close> of \<open>S\<close>: if \<open>S\<close> holds a leaf at \<open>p\<close>, that leaf is the buffer collected with
  number \<open>k = rank ct S p\<close> and \<open>R\<close> holds \<open>conv ! k\<close> at \<open>p\<close>; if \<open>S\<close> holds a list or a tuple
  at \<open>p\<close>, \<open>R\<close> holds at \<open>p\<close> a tuple with as many elements; and any other value of \<open>S\<close>
  stands unchanged at \<open>p\<close> in \<open>R\<close>. So no leaf is dropped, duplicated or moved.
\<close>

theorem round_trip:
  assumes ct: "ct \<noteq> TList" "ct \<noteq> TTuple"
    and hf: "handle_free ct S"
    and cf: "leaves ct S = [] \<or>
             f (leaves ct S) (replicate (length (leaves ct S)) (PStr '''')) = Inr conv"
    and len: "length conv = length (leaves ct S)"
  shows "\<exists>M a1 a2 R.
       collect_tensors (new_arena f) ct S None (PStr '''') = (Inr M, a1)
     \<and> tensors a1 = leaves ct S
     \<and> arena_convert a1 = (Inr (), a2)
     \<and> replace_tensors a2 M = Inr R
     \<and> (\<forall>p x. sub S p = Some x \<longrightarrow>
          (type_of x = ct \<longrightarrow>
             rank ct S p < length (leaves ct S) \<and> leaves ct S ! rank ct S p = x
             \<and> sub R p = Some (conv ! rank ct S p))
        \<and> (type_of x \<noteq> ct \<and> is_seq x \<longrightarrow>
             (\<exists>ys. sub R p = Some (PTuple ys) \<and> length ys = length (items x)))
        \<and> (type_of x \<noteq> ct \<and> \<not> is_seq x \<longrightarrow> sub R p = Some x))"
proof -
  let ?a0 = "new_arena f"
  let ?M = "mirror ct 0 S"
  let ?a1 = "grown ?a0 (leaves ct S) (tags (PStr '''') (length (leaves ct S)))"
  let ?a2 = "if leaves ct S = [] then ?a1 else ?a1\<lparr>converted_tensors := Some conv\<rparr>"
  let ?R = "rehydrate conv ?M"
  have col: "collect_tensors ?a0 ct S None (PStr '''') = (Inr ?M, ?a1)"
    using collect_tensors_plain [of ?a0 ct S "PStr ''''"] by (simp add: new_arena_def)
  have t1: "tensors ?a1 = leaves ct S" by (simp add: new_arena_def)
  have cv: "arena_convert ?a1 = (Inr (), ?a2)"
    using cf by (auto simp: arena_convert_def new_arena_def tags_def)
  have cl: "conv = (case converted_tensors ?a2 of None \<Rightarrow> [] | Some l \<Rightarrow> l)"
    using len by (auto simp: new_arena_def)
  have hw: "handles_within (length conv) ?M"
    using mirror_handles [OF hf, of 0 "length conv"] len by simp
  have rep: "replace_tensors ?a2 ?M = Inr ?R"
    using cl hw by (rule replace_tensors_plain)
  have pos: "(type_of x = ct \<longrightarrow>
             rank ct S p < length (leaves ct S) \<and> leaves ct S ! rank ct S p = x
             \<and> sub ?R p = Some (conv ! rank ct S p))
        \<and> (type_of x \<noteq> ct \<and> is_seq x \<longrightarrow>
             (\<exists>ys. sub ?R p = Some (PTuple ys) \<and> length ys = length (items x)))
        \<and> (type_of x \<noteq> ct \<and> \<not> is_seq x \<longrightarrow> sub ?R p = Some x)"
    if s: "sub S p = Some x" for p x
  proof -
    have sR: "sub ?R p = Some (rehydrate conv (mirror ct (rank ct S p) x))"
      using sub_rehydrate [OF sub_mirror [OF ct s, of 0], of conv] by simp
    have hx: "handle_free ct x" using sub_handle_free [OF ct hf s] .
    have leaf: "rank ct S p < length (leaves ct S) \<and> leaves ct S ! rank ct S p = x
             \<and> sub ?R p = Some (conv ! rank ct S p)" if "type_of x = ct"
      using rank_leaf [OF ct s that] sR that by (simp add: mirror_cases)
    have seq: "\<exists>ys. sub ?R p = Some (PTuple ys) \<and> length ys = length (items x)"
      if "type_of x \<noteq> ct" "is_seq x"
      using sR that by (cases x) (auto simp: mirror_cases)
    have other: "sub ?R p = Some x" if "type_of x \<noteq> ct" "\<not> is_seq x"
      using sR that hx by (cases x) (auto simp: mirror_cases)
    show ?thesis using leaf seq other by blast
  qed
  show ?thesis
    using col t1 cv rep pos by blast
qed

theorem round_trip_witness:
  "handle_free (TObj 0) (PList [Obj 0 1, PTuple [Obj 0 2, PList [Obj 0 3]], PStr ''meta''])
   \<and> collect_tensors (new_arena (\<lambda>ts ds. Inr (map (\<lambda>t. PTuple [PStr ''xla'', t]) ts))) (TObj 0)
       (PList [Obj 0 1, PTuple [Obj 0 2, PList [Obj 0 3]], PStr ''meta'']) None (PStr '''')
     = (Inr (PTuple [LinearIndex 0, PTuple [LinearIndex 1, PTuple [LinearIndex 2]], PStr ''meta'']),
        \<lparr>convert_fn = (\<lambda>ts ds. Inr (map (\<lambda>t. PTuple [PStr ''xla'', t]) ts)),
         tensors = [Obj 0 1, Obj 0 2, Obj 0 3],
         devices = [PStr '''', PStr '''', PStr ''''], converted_tensors = None\<rparr>)
   \<and> replace_tensors
       \<lparr>convert_fn = (\<lambda>ts ds. Inr (map (\<lambda>t. PTuple [PStr ''xla'', t]) ts)),
        tensors = [Obj 0 1, Obj 0 2, Obj 0 3],
        devices = [PStr '''', PStr '''', PStr ''''],
        converted_tensors = Some [PTuple [PStr ''xla'', Obj 0 1], PTuple [PStr ''xla'', Obj 0 2],
                                  PTuple [PStr ''xla'', Obj 0 3]]\<rparr>
       (PTuple [LinearIndex 0, PTuple [LinearIndex 1, PTuple [LinearIndex 2]], PStr ''meta''])
     = Inr (PTuple [PTuple [PStr ''xla'', Obj 0 1],
                    PTuple [PTuple [PStr ''xla'', Obj 0 2], PTuple [PTuple [PStr ''xla'', Obj 0 3]]],
                    PStr ''meta''])"
  using round_trip
    [of "TObj 0" "PList [Obj 0 1, PTuple [Obj 0 2, PList [Obj 0 3]], PStr ''meta'']"
        "\<lambda>ts ds. Inr (map (\<lambda>t. PTuple [PStr ''xla'', t]) ts)"
        "[PTuple [PStr ''xla'', Obj 0 1], PTuple [PStr ''xla'', Obj 0 2],
          PTuple [PStr ''xla'', Obj 0 3]]"]
  by (simp add: new_arena_def arena_add_def get_converted_tensor_def py_index_def)

text \<open>
  Claim C2, as stated, fails: the walker and the rehydrator return a tuple for a list,
  and neither looks inside a mapping. A list with one leaf comes back as a tuple; a
  dict that holds a leaf comes back from the walker as it was, the arena still empty;
  a dict that holds a handle comes back from the rehydrator with the handle in place.
\<close>

theorem structure_counterexample:
  "fst (collect_tensors (new_arena (\<lambda>ts ds. Inr ts)) (TObj 0) (PList [Obj 0 1]) None (PStr ''''))
     = Inr (PTuple [LinearIndex 0])
   \<and> collect_tensors (new_arena (\<lambda>ts ds. Inr ts)) (TObj 0) (PDict [(PStr ''w'', Obj 0 1)]) None
       (PStr '''')
     = (Inr (PDict [(PStr ''w'', Obj 0 1)]), new_arena (\<lambda>ts ds. Inr ts))
   \<and> replace_tensors
       (snd (arena_convert (snd (arena_add (new_arena (\<lambda>ts ds. Inr ts)) (Obj 0 1) (PStr '''')))))
       (PList [LinearIndex 0])
     = Inr (PTuple [Obj 0 1])
   \<and> replace_tensors
       (snd (arena_convert (snd (arena_add (new_arena (\<lambda>ts ds. Inr ts)) (Obj 0 1) (PStr '''')))))
       (PDict [(PStr ''w'', LinearIndex 0)])
     = Inr (PDict [(PStr ''w'', LinearIndex 0)])"
  by (simp add: new_arena_def arena_add_def arena_convert_def get_converted_tensor_def
      py_index_def)

text \<open>
  Claim C2, amended. Both functions recurse into lists and tuples only. For a
  collected type that is neither list nor tuple, the walker (called without device
  list on an arena that is empty or holds buffers of the collected type) returns a
  structure that has, at every position of its input, a handle where the input has a
  leaf, a tuple with as many elements where the input has a list or a tuple, and the
  input's own value anywhere else. The rehydrator, on an arena with a converted list
  and a structure whose handles are within it, returns a structure that has, at every
  position of its input, the converted buffer of the handle's index where the input has
  a handle, a tuple with as many elements where the input has a list or a tuple, and
  the input's own value anywhere else. A mapping is such a value: both functions return
  it as it is, and the walker leaves the arena unchanged.
\<close>

theorem structure_preservation:
  assumes acc: "tensors a = [] \<or> type_of (hd (tensors a)) = ct"
    and ct: "ct \<noteq> TList" "ct \<noteq> TTuple"
    and cv: "converted_tensors b = Some cs"
    and hw: "handles_within (length cs) m"
  shows "(\<exists>m' a'. collect_tensors a ct v None dev = (Inr m', a')
          \<and> (\<forall>p x. sub v p = Some x \<longrightarrow>
               (type_of x = ct \<longrightarrow> (\<exists>i. sub m' p = Some (LinearIndex i)))
             \<and> (type_of x \<noteq> ct \<and> is_seq x \<longrightarrow>
                  (\<exists>ys. sub m' p = Some (PTuple ys) \<and> length ys = length (items x)))
             \<and> (type_of x \<noteq> ct \<and> \<not> is_seq x \<longrightarrow> sub m' p = Some x)))
       \<and> (\<exists>r. replace_tensors b m = Inr r
          \<and> (\<forall>p x. sub m p = Some x \<longrightarrow>
               (\<forall>i. x = LinearIndex i \<longrightarrow> sub r p = Some (cs ! nat i))
             \<and> (is_seq x \<longrightarrow>
                  (\<exists>ys. sub r p = Some (PTuple ys) \<and> length ys = length (items x)))
             \<and> (type_of x \<noteq> TLinearIndex \<and> \<not> is_seq x \<longrightarrow> sub r p = Some x)))
       \<and> (\<forall>kvs devs. ct \<noteq> TDict \<longrightarrow>
            collect_tensors a ct (PDict kvs) devs dev = (Inr (PDict kvs), a))
       \<and> (\<forall>kvs. replace_tensors b (PDict kvs) = Inr (PDict kvs))"
proof -
  let ?m' = "mirror ct (length (tensors a)) v"
  have col: "collect_tensors a ct v None dev =
      (Inr ?m', grown a (leaves ct v) (tags dev (length (leaves ct v))))"
    using acc by (rule collect_tensors_plain)
  have wpos: "(type_of x = ct \<longrightarrow> (\<exists>i. sub ?m' p = Some (LinearIndex i)))
             \<and> (type_of x \<noteq> ct \<and> is_seq x \<longrightarrow>
                  (\<exists>ys. sub ?m' p = Some (PTuple ys) \<and> length ys = length (items x)))
             \<and> (type_of x \<noteq> ct \<and> \<not> is_seq x \<longrightarrow> sub ?m' p = Some x)"
    if s: "sub v p = Some x" for p x
    using sub_mirror [OF ct s, of "length (tensors a)"] by (simp add: mirror_cases)
  have rep: "replace_tensors b m = Inr (rehydrate cs m)"
    using hw by (intro replace_tensors_plain) (simp add: cv)
  have rpos: "(\<forall>i. x = LinearIndex i \<longrightarrow> sub (rehydrate cs m) p = Some (cs ! nat i))
             \<and> (is_seq x \<longrightarrow>
                  (\<exists>ys. sub (rehydrate cs m) p = Some (PTuple ys)
                     \<and> length ys = length (items x)))
             \<and> (type_of x \<noteq> TLinearIndex \<and> \<not> is_seq x \<longrightarrow> sub (rehydrate cs m) p = Some x)"
    if s: "sub m p = Some x" for p x
    using sub_rehydrate [OF s, of cs] by (cases x) auto
  have d1: "\<forall>kvs devs. ct \<noteq> TDict \<longrightarrow>
            collect_tensors a ct (PDict kvs) devs dev = (Inr (PDict kvs), a)"
    by auto
  have d2: "\<forall>kvs. replace_tensors b (PDict kvs) = Inr (PDict kvs)"
    by simp
  show ?thesis
    using col wpos rep rpos d1 d2 by blast
qed

theorem structure_preservation_witness:
  "collect_tensors (new_arena (\<lambda>ts ds. Inr ts)) (TObj 0)
       (PList [Obj 0 1, PDict [(PStr ''w'', Obj 0 2)], PList [Obj 0 3]]) None (PStr '''')
     = (Inr (PTuple [LinearIndex 0, PDict [(PStr ''w'', Obj 0 2)], PTuple [LinearIndex 1]]),
        \<lparr>convert_fn = (\<lambda>ts ds. Inr ts), tensors = [Obj 0 1, Obj 0 3],
         devices = [PStr '''', PStr ''''], converted_tensors = None\<rparr>)
   \<and> replace_tensors
        \<lparr>convert_fn = (\<lambda>ts ds. Inr ts), tensors = [Obj 0 1, Obj 0 3],
         devices = [PStr '''', PStr ''''], converted_tensors = Some [Obj 0 1, Obj 0 3]\<rparr>
        (PTuple [LinearIndex 0, PDict [(PStr ''w'', Obj 0 2)], PTuple [LinearIndex 1]])
     = Inr (PTuple [Obj 0 1, PDict [(PStr ''w'', Obj 0 2)], PTuple [Obj 0 3]])"
  using structure_preservation
    [of "new_arena (\<lambda>ts ds. Inr ts)" "TObj 0"
        "\<lparr>convert_fn = (\<lambda>ts ds. Inr ts), tensors = [Obj 0 1, Obj 0 3],
         devices = [PStr '''', PStr ''''], converted_tensors = Some [Obj 0 1, Obj 0 3]\<rparr>"
        "[Obj 0 1, Obj 0 3]"
        "PTuple [LinearIndex 0, PDict [(PStr ''w'', Obj 0 2)], PTuple [LinearIndex 1]]"
        "PList [Obj 0 1, PDict [(PStr ''w'', Obj 0 2)], PList [Obj 0 3]]" "PStr ''''"]
  by (simp add: new_arena_def arena_add_def get_converted_tensor_def py_index_def)

section \<open>Properties of the optimizer step\<close>

lemma mark_step_eq:
  "mark_step rt st tr =
     (case export_error rt st of
        Some e \<Rightarrow> (Inl e, tr @ export_events rt st)
      | None \<Rightarrow> (Inr (), tr @ export_events rt st @ [XlaStepMarker (xla_get_default_device rt)]))"
  by (auto simp: mark_step_def export_error_def export_events_def split: option.splits)

lemma optimizer_step_eq:
  assumes "fetch_optimizer_state rt opt = Inr st" and "opt_step opt closure = Inr loss"
  shows "optimizer_step rt opt closure =
     (case export_error rt st of
        Some e \<Rightarrow> (Inl e, collective_events rt st @ [OptimizerStep closure] @ export_events rt st)
      | None \<Rightarrow> (Inr loss, collective_events rt st @ [OptimizerStep closure] @ export_events rt st
                   @ [XlaStepMarker (xla_get_default_device rt)]))"
  using assms
  by (simp add: optimizer_step_def mark_step_eq collective_events_def Let_def split: option.splits)

lemma export_events_no_collective: "XlaCrossReplicaSum g s grp \<notin> set (export_events rt st)"
  by (auto simp: export_events_def split: option.splits)

lemma export_events_no_marker: "XlaStepMarker d \<notin> set (export_events rt st)"
  by (auto simp: export_events_def split: option.splits)

text \<open>
  Claim C3. When the collector and \<^verbatim>\<open>optimizer.step\<close> return normally and the export
  of \<^verbatim>\<open>_mark_step\<close> does not raise, \<^verbatim>\<open>optimizer_step\<close> makes these calls, in this order:
  the cross-replica sum of the collected gradients with the scale factor \<open>1 / count\<close> and
  the empty group list, when the replication device count exceeds 1 and only then;
  \<^verbatim>\<open>optimizer.step(closure)\<close>; the export, if a dump directory is configured; the step
  marker. It returns the value that \<^verbatim>\<open>optimizer.step\<close> returned.
\<close>

theorem optimizer_step_protocol:
  assumes "fetch_optimizer_state rt opt = Inr st"
    and "opt_step opt closure = Inr loss"
    and "export_error rt st = None"
  shows "optimizer_step rt opt closure =
       (Inr loss,
        (if 1 < xla_replication_device_count rt
         then [XlaCrossReplicaSum (state_gradients st)
                 (1 / of_int (xla_replication_device_count rt)) []]
         else [])
        @ [OptimizerStep closure] @ export_events rt st
        @ [XlaStepMarker (xla_get_default_device rt)])
     \<and> ((\<exists>g s grp. XlaCrossReplicaSum g s grp \<in> set (snd (optimizer_step rt opt closure)))
          \<longleftrightarrow> 1 < xla_replication_device_count rt)"
proof -
  have eq: "optimizer_step rt opt closure =
       (Inr loss, collective_events rt st @ [OptimizerStep closure] @ export_events rt st
          @ [XlaStepMarker (xla_get_default_device rt)])"
    using optimizer_step_eq [OF assms(1,2)] assms(3) by simp
  have "(\<exists>g s grp. XlaCrossReplicaSum g s grp \<in> set (snd (optimizer_step rt opt closure)))
          \<longleftrightarrow> 1 < xla_replication_device_count rt"
    using export_events_no_collective [of _ _ _ rt st]
    by (auto simp: eq collective_events_def)
  then show ?thesis using eq by (simp add: collective_events_def)
qed

theorem optimizer_step_protocol_witness:
  "optimizer_step
     \<lparr>environ_SAVE_GRAPH_DIR = None, save_tensors_graph = (\<lambda>d l ts. None),
      xla_get_default_device = PStr ''xla:0'', xla_replication_device_count = 4,
      recursion_limit = 1000\<rparr>
     \<lparr>opt_getstate = PList [Tensor 0 (Some 10), Tensor 1 (Some 11)],
      opt_state = [(Tensor 0 (Some 10), PDict [(PStr ''momentum_buffer'', Tensor 20 None)]),
                   (Tensor 1 (Some 11), PDict [(PStr ''momentum_buffer'', Tensor 21 None)])],
      opt_step = (\<lambda>c. Inr (PInt 7))\<rparr>
     PNone
   = (Inr (PInt 7),
      [XlaCrossReplicaSum [Tensor 10 None, Tensor 11 None] (1 / 4) [],
       OptimizerStep PNone, XlaStepMarker (PStr ''xla:0'')])
  \<and> optimizer_step
     \<lparr>environ_SAVE_GRAPH_DIR = None, save_tensors_graph = (\<lambda>d l ts. None),
      xla_get_default_device = PStr ''xla:0'', xla_replication_device_count = 1,
      recursion_limit = 1000\<rparr>
     \<lparr>opt_getstate = PList [Tensor 0 (Some 10), Tensor 1 (Some 11)],
      opt_state = [(Tensor 0 (Some 10), PDict [(PStr ''momentum_buffer'', Tensor 20 None)]),
                   (Tensor 1 (Some 11), PDict [(PStr ''momentum_buffer'', Tensor 21 None)])],
      opt_step = (\<lambda>c. Inr (PInt 7))\<rparr>
     PNone
   = (Inr (PInt 7), [OptimizerStep PNone, XlaStepMarker (PStr ''xla:0'')])"
  using optimizer_step_protocol
    [of "\<lparr>environ_SAVE_GRAPH_DIR = None, save_tensors_graph = (\<lambda>d l ts. None),
      xla_get_default_device = PStr ''xla:0'', xla_replication_device_count = 4,
      recursion_limit = 1000\<rparr>"
     "\<lparr>opt_getstate = PList [Tensor 0 (Some 10), Tensor 1 (Some 11)],
      opt_state = [(Tensor 0 (Some 10), PDict [(PStr ''momentum_buffer'', Tensor 20 None)]),
                   (Tensor 1 (Some 11), PDict [(PStr ''momentum_buffer'', Tensor 21 None)])],
      opt_step = (\<lambda>c. Inr (PInt 7))\<rparr>"
     "\<lparr>state_tensors = [Tensor 0 None, Tensor 20 None, Tensor 1 None, Tensor 21 None],
      state_gradients = [Tensor 10 None, Tensor 11 None]\<rparr>" PNone "PInt 7"]
    optimizer_step_protocol
    [of "\<lparr>environ_SAVE_GRAPH_DIR = None, save_tensors_graph = (\<lambda>d l ts. None),
      xla_get_default_device = PStr ''xla:0'', xla_replication_device_count = 1,
      recursion_limit = 1000\<rparr>"
     "\<lparr>opt_getstate = PList [Tensor 0 (Some 10), Tensor 1 (Some 11)],
      opt_state = [(Tensor 0 (Some 10), PDict [(PStr ''momentum_buffer'', Tensor 20 None)]),
                   (Tensor 1 (Some 11), PDict [(PStr ''momentum_buffer'', Tensor 21 None)])],
      opt_step = (\<lambda>c. Inr (PInt 7))\<rparr>"
     "\<lparr>state_tensors = [Tensor 0 None, Tensor 20 None, Tensor 1 None, Tensor 21 None],
      state_gradients = [Tensor 10 None, Tensor 11 None]\<rparr>" PNone "PInt 7"]
  by (simp add: fetch_optimizer_state_def export_error_def export_events_def state_get_def
      eval_nat_numeral)

text \<open>
  Claim C5, as stated, fails: nothing catches an exception of the export. With a dump
  directory configured and a graph saver that raises, \<^verbatim>\<open>optimizer_step\<close> raises that
  exception instead of returning the loss, and the step marker is not emitted.
\<close>

theorem export_failure_counterexample:
  "optimizer_step
     \<lparr>environ_SAVE_GRAPH_DIR = Some ''/tmp/graphs'',
      save_tensors_graph = (\<lambda>d l ts. Some (Raised ''IOError'')),
      xla_get_default_device = PStr ''xla:0'', xla_replication_device_count = 1,
      recursion_limit = 1000\<rparr>
     \<lparr>opt_getstate = PList [Tensor 0 (Some 10)], opt_state = [],
      opt_step = (\<lambda>c. Inr (PInt 7))\<rparr>
     PNone
   = (Inl (Raised ''IOError''),
      [OptimizerStep PNone,
       SaveTensorsGraph ''/tmp/graphs'' ''optimizer_step'' [Tensor 10 None, Tensor 0 None]])"
  by (simp add: optimizer_step_def mark_step_def fetch_optimizer_state_def state_get_def
      eval_nat_numeral)

text \<open>
  Claim C5, amended. Let the collector and \<^verbatim>\<open>optimizer.step\<close> return normally. When a
  dump directory is configured and the export raises, the exception leaves \<^verbatim>\<open>_mark_step\<close>
  right after the export call and leaves \<^verbatim>\<open>optimizer_step\<close> in place of the loss, and no
  step marker is emitted. When the export returns normally, or none is configured,
  \<^verbatim>\<open>_mark_step\<close> emits the step marker after it, as the last call, and \<^verbatim>\<open>optimizer_step\<close>
  returns the loss.
\<close>

theorem export_failure_propagates:
  assumes "fetch_optimizer_state rt opt = Inr st" and "opt_step opt closure = Inr loss"
  shows "(\<forall>e. export_error rt st = Some e \<longrightarrow>
            mark_step rt st tr = (Inl e, tr @ export_events rt st)
          \<and> fst (optimizer_step rt opt closure) = Inl e
          \<and> (\<forall>d. XlaStepMarker d \<notin> set (snd (optimizer_step rt opt closure))))
       \<and> (export_error rt st = None \<longrightarrow>
            mark_step rt st tr =
              (Inr (), tr @ export_events rt st @ [XlaStepMarker (xla_get_default_device rt)])
          \<and> fst (optimizer_step rt opt closure) = Inr loss
          \<and> last (snd (optimizer_step rt opt closure))
              = XlaStepMarker (xla_get_default_device rt))"
proof -
  have nm: "XlaStepMarker d \<notin> set (collective_events rt st)" for d
    by (simp add: collective_events_def)
  show ?thesis
    using optimizer_step_eq [OF assms] nm export_events_no_marker [of _ rt st]
    by (auto simp: mark_step_eq)
qed

theorem export_failure_propagates_witness:
  "mark_step
     \<lparr>environ_SAVE_GRAPH_DIR = Some ''/tmp/graphs'',
      save_tensors_graph = (\<lambda>d l ts. Some (Raised ''IOError'')),
      xla_get_default_device = PStr ''xla:0'', xla_replication_device_count = 1,
      recursion_limit = 1000\<rparr>
     \<lparr>state_tensors = [Tensor 0 None], state_gradients = [Tensor 10 None]\<rparr> []
   = (Inl (Raised ''IOError''),
      [SaveTensorsGraph ''/tmp/graphs'' ''optimizer_step'' [Tensor 10 None, Tensor 0 None]])
   \<and> mark_step
     \<lparr>environ_SAVE_GRAPH_DIR = Some ''/tmp/graphs'',
      save_tensors_graph = (\<lambda>d l ts. None),
      xla_get_default_device = PStr ''xla:0'', xla_replication_device_count = 1,
      recursion_limit = 1000\<rparr>
     \<lparr>state_tensors = [Tensor 0 None], state_gradients = [Tensor 10 None]\<rparr> []
   = (Inr (),
      [SaveTensorsGraph ''/tmp/graphs'' ''optimizer_step'' [Tensor 10 None, Tensor 0 None],
       XlaStepMarker (PStr ''xla:0'')])"
  using export_failure_propagates
    [of "\<lparr>environ_SAVE_GRAPH_DIR = Some ''/tmp/graphs'',
      save_tensors_graph = (\<lambda>d l ts. Some (Raised ''IOError'')),
      xla_get_default_device = PStr ''xla:0'', xla_replication_device_count = 1,
      recursion_limit = 1000\<rparr>"
     "\<lparr>opt_getstate = PList [Tensor 0 (Some 10)], opt_state = [],
      opt_step = (\<lambda>c. Inr (PInt 7))\<rparr>"
     "\<lparr>state_tensors = [Tensor 0 None], state_gradients = [Tensor 10 None]\<rparr>" PNone "PInt 7" "[]"]
   export_failure_propagates
    [of "\<lparr>environ_SAVE_GRAPH_DIR = Some ''/tmp/graphs'',
      save_tensors_graph = (\<lambda>d l ts. None),
      xla_get_default_device = PStr ''xla:0'', xla_replication_device_count = 1,
      recursion_limit = 1000\<rparr>"
     "\<lparr>opt_getstate = PList [Tensor 0 (Some 10)], opt_state = [],
      opt_step = (\<lambda>c. Inr (PInt 7))\<rparr>"
     "\<lparr>state_tensors = [Tensor 0 None], state_gradients = [Tensor 10 None]\<rparr>" PNone "PInt 7" "[]"]
  by (simp add: fetch_optimizer_state_def export_error_def export_events_def state_get_def
      eval_nat_numeral)







end
